theory Spec2Isabelle
  imports Main "HOL-Library.Sublist" "HOL-Library.Word"
begin

section \<open>Values and objects\<close>

text \<open>
  The program is TypeScript; what it does is decided by the JavaScript it compiles to.
  Three things of that run-time matter for the properties below and are written out:
  \<^item> a string is a sequence of code units; \<open>slice\<close> and \<open>length\<close> count units. The
    model uses \<open>string\<close>, one element per code unit. Nothing below depends on how many
    different code units there are;
  \<^item> an object is a set of own keys, each holding a value that may be \<open>undefined\<close>.
    Reading a key that is not there also gives \<open>undefined\<close>, but the spread
    \<open>{...a, ...b}\<close> copies every own key of \<open>b\<close>, also one that holds \<open>undefined\<close>.
    So each key of an object is a \<open>property\<close> with three states;
  \<^item> the type annotations are erased. \<open>stack?: string\<close> admits a missing key, a key
    holding \<open>undefined\<close> and a key holding a string. The annotated types are
    predicates on the run-time objects (\<open>is_BaseLog\<close>).
\<close>

type_synonym jsstring = string

datatype LogLevel = Trace | Debug | Info | Warn | Error | Fatal

datatype 'a property = Missing | Undefined | Value 'a

text \<open>\<open>o.k\<close>: the value read from a key, \<open>None\<close> for \<open>undefined\<close>.\<close>

fun read :: "'a property \<Rightarrow> 'a option" where
  "read Missing = None"
| "read Undefined = None"
| "read (Value v) = Some v"

text \<open>\<open>{k: e}\<close>: the key of an object literal. It is always there, holding what \<open>e\<close> gave.\<close>

fun holding :: "'a option \<Rightarrow> 'a property" where
  "holding None = Undefined"
| "holding (Some v) = Value v"

text \<open>One key of \<open>{...a, ...b}\<close>: an own key of \<open>b\<close> replaces that of \<open>a\<close>.\<close>

fun over :: "'a property \<Rightarrow> 'a property \<Rightarrow> 'a property" where
  "over a Missing = a"
| "over a Undefined = Undefined"
| "over a (Value v) = Value v"

text \<open>\<open>s.slice(a, b)\<close> for indices that are not negative.\<close>

definition slice :: "jsstring \<Rightarrow> nat \<Rightarrow> nat \<Rightarrow> jsstring" where
  "slice s a b = drop a (take b s)"

text \<open>A value inside a template literal or on the right of \<open>+=\<close>: \<open>undefined\<close> is spelled out.\<close>

fun text_of :: "jsstring option \<Rightarrow> jsstring" where
  "text_of None = ''undefined''"
| "text_of (Some s) = s"

section \<open>types.ts: the records and the record mapper\<close>

text \<open>
  \<open>BaseLog\<close> is the shape of every log object of the program: the argument of \<open>log\<close>,
  the partial record of the convenience methods (\<open>Partial<BaseLog>\<close>) and the defaults
  of a logger (an object with the keys \<open>system\<close> and \<open>user\<close> only).
\<close>

record BaseLog =
  level :: "LogLevel property"
  message :: "jsstring property"
  stack :: "jsstring property"
  system :: "jsstring property"
  user :: "jsstring property"

record Log = BaseLog +
  id' :: "jsstring property"
  timestamp :: "jsstring property"

record BaseSfLog =
  Level__c :: "LogLevel property"
  Message__c :: "jsstring property"
  Stack__c :: "jsstring property"
  System__c :: "jsstring property"
  User__c :: "jsstring property"

record SfLog = BaseSfLog +
  Id :: "jsstring property"
  CreatedDate :: "jsstring property"

text \<open>The annotated type \<open>BaseLog\<close>: \<open>level\<close> and \<open>message\<close> are required and hold a value.\<close>

definition is_BaseLog :: "BaseLog \<Rightarrow> bool" where
  "is_BaseLog r = (read (level r) \<noteq> None \<and> read (message r) \<noteq> None)"

text \<open>
  What a program can throw or a remote call can fail with. \<open>errorCode\<close> is the property
  of that name (\<open>None\<close> when the value has none); errors made by \<open>new Error(m)\<close> and
  the engine's own \<open>TypeError\<close> have none.
\<close>

datatype exn = Exn (errorCode: "jsstring option") (description: jsstring)

definition new_Error :: "jsstring \<Rightarrow> exn" where
  "new_Error m = Exn None m"

definition TypeError :: "jsstring \<Rightarrow> exn" where
  "TypeError m = Exn None (''TypeError: '' @ m)"

definition fromSfLog :: "SfLog \<Rightarrow> Log" where
  "fromSfLog sfLog =
     \<lparr> level = holding (read (Level__c sfLog)),
       message = holding (read (Message__c sfLog)),
       stack = holding (read (Stack__c sfLog)),
       system = holding (read (System__c sfLog)),
       user = holding (read (User__c sfLog)),
       id' = holding (read (Id sfLog)),
       timestamp = holding (read (CreatedDate sfLog)) \<rparr>"

text \<open>
  \<open>log.message.slice(0, 255)\<close> is a method call on what the key holds: on \<open>undefined\<close>
  the engine throws. The other three use \<open>?.\<close> and give \<open>undefined\<close> there.
\<close>

definition toSfLog :: "BaseLog \<Rightarrow> exn + BaseSfLog" where
  "toSfLog log =
     (case read (message log) of
        None \<Rightarrow> Inl (TypeError ''Cannot read properties of undefined (reading 'slice')'')
      | Some m \<Rightarrow> Inr
          \<lparr> Level__c = holding (read (level log)),
            Message__c = Value (slice m 0 255),
            Stack__c = holding (map_option (\<lambda>s. slice s 0 32768) (read (stack log))),
            System__c = holding (map_option (\<lambda>s. slice s 0 255) (read (system log))),
            User__c = holding (map_option (\<lambda>s. slice s 0 80) (read (user log))) \<rparr>)"

definition LOG_OBJECT :: jsstring where
  "LOG_OBJECT = ''Log__c''"

definition LOG_FIELDS :: "jsstring list" where
  "LOG_FIELDS =
     [''Id'', ''Level__c'', ''Message__c'', ''Stack__c'', ''System__c'', ''User__c'',
      ''CreatedDate'']"

text \<open>
  The row the backend holds for an inserted record: the record's own keys, and the
  \<open>Id\<close> and \<open>CreatedDate\<close> the backend assigns.
\<close>

definition assigned :: "BaseSfLog \<Rightarrow> jsstring \<Rightarrow> jsstring \<Rightarrow> SfLog" where
  "assigned s i d = BaseSfLog.extend s \<lparr> Id = Value i, CreatedDate = Value d \<rparr>"

section \<open>The connection and the world\<close>

text \<open>
  The connection to the backend is a library object, not code of this program. Its
  operations are parameters: functions of a backend state \<open>'b\<close> that nothing is assumed
  about. \<open>describe\<close>, \<open>identity\<close> and \<open>query\<close> are the read operations of the remote
  interface; their answer is a function of the backend state, which they leave as it
  is. \<open>create\<close>, \<open>insert\<close> and the deployment may change it. Every operation may fail
  with an exception instead of an answer.
\<close>

record Field =
  name :: jsstring

record DescribeSObjectResult =
  fields' :: "Field list"

record IdentityInfo =
  user_id :: jsstring

record PermissionSetAssignment =
  PermissionSetId :: "jsstring option"
  AssigneeId :: jsstring

record SaveResult =
  success :: bool
  errors :: "jsstring list option"

text \<open>
  The deployment's final status: \<open>response.success\<close>, and as \<open>response_details\<close> what
  \<open>JSON.stringify(response.details)\<close> gives.
\<close>

record DeployResult =
  response_success :: bool
  response_details :: "jsstring option"

record 'b Connection =
  sobject_describe :: "'b \<Rightarrow> jsstring \<Rightarrow> exn + DescribeSObjectResult"
  identity :: "'b \<Rightarrow> exn + IdentityInfo"
  query :: "'b \<Rightarrow> jsstring \<Rightarrow> exn + SfLog list"
  sobject_create :: "'b \<Rightarrow> jsstring \<Rightarrow> PermissionSetAssignment \<Rightarrow> (exn + SaveResult) \<times> 'b"
  sobject_insert :: "'b \<Rightarrow> jsstring \<Rightarrow> BaseSfLog \<Rightarrow> (exn + SaveResult) \<times> 'b"
  deploy_pollStatus :: "'b \<Rightarrow> jsstring \<Rightarrow> (exn + DeployResult) \<times> 'b"

text \<open>The remote calls a run issues, in order, with what was sent.\<close>

datatype Call =
  Describe jsstring
| Identity
| Query jsstring
| Create jsstring PermissionSetAssignment
| Insert jsstring BaseSfLog
| Deploy jsstring

text \<open>
  The world a run acts on: the backend, the calls issued so far, the objects echoed
  to the console (before \<open>JSON.stringify\<close>, which is not modelled), and what the
  program reads from its machine: \<open>hostname()\<close>, \<open>userInfo().username\<close> (which can
  throw) and the folder \<open>path.resolve(import.meta.dirname, '..', 'force')\<close>.
  The \<open>debug\<close> output of sf.ts is not modelled: it changes no result.
\<close>

record 'b World =
  backend :: 'b
  calls :: "Call list"
  console :: "BaseLog list"
  hostname :: jsstring
  userInfo_username :: "exn + jsstring"
  force_folder :: jsstring

type_synonym ('a, 'b) run = "'b World \<Rightarrow> (exn + 'a) \<times> 'b World"

definition call_describe :: "'b Connection \<Rightarrow> jsstring \<Rightarrow> (DescribeSObjectResult, 'b) run" where
  "call_describe conn objectName w =
     (sobject_describe conn (backend w) objectName,
      w\<lparr>calls := calls w @ [Describe objectName]\<rparr>)"

definition call_identity :: "'b Connection \<Rightarrow> (IdentityInfo, 'b) run" where
  "call_identity conn w = (identity conn (backend w), w\<lparr>calls := calls w @ [Identity]\<rparr>)"

definition call_query :: "'b Connection \<Rightarrow> jsstring \<Rightarrow> (SfLog list, 'b) run" where
  "call_query conn soql w = (query conn (backend w) soql, w\<lparr>calls := calls w @ [Query soql]\<rparr>)"

definition call_create ::
  "'b Connection \<Rightarrow> jsstring \<Rightarrow> PermissionSetAssignment \<Rightarrow> (SaveResult, 'b) run" where
  "call_create conn objectName a w =
     (case sobject_create conn (backend w) objectName a of
        (r, b) \<Rightarrow> (r, w\<lparr>backend := b, calls := calls w @ [Create objectName a]\<rparr>))"

definition call_insert :: "'b Connection \<Rightarrow> jsstring \<Rightarrow> BaseSfLog \<Rightarrow> (SaveResult, 'b) run" where
  "call_insert conn objectName r w =
     (case sobject_insert conn (backend w) objectName r of
        (res, b) \<Rightarrow> (res, w\<lparr>backend := b, calls := calls w @ [Insert objectName r]\<rparr>))"

definition call_deploy :: "'b Connection \<Rightarrow> jsstring \<Rightarrow> (DeployResult, 'b) run" where
  "call_deploy conn folder w =
     (case deploy_pollStatus conn (backend w) folder of
        (r, b) \<Rightarrow> (r, w\<lparr>backend := b, calls := calls w @ [Deploy folder]\<rparr>))"

section \<open>sf.ts\<close>

text \<open>\<open>xs.join(sep)\<close>.\<close>

fun join :: "jsstring \<Rightarrow> jsstring list \<Rightarrow> jsstring" where
  "join sep [] = []"
| "join sep [x] = x"
| "join sep (x # y # ys) = x @ sep @ join sep (y # ys)"

definition assignPermissionSet :: "'b Connection \<Rightarrow> jsstring \<Rightarrow> (bool, 'b) run" where
  "assignPermissionSet conn permissionSetName w =
     (case call_identity conn w of
        (Inl e, w1) \<Rightarrow> (Inl e, w1)
      | (Inr userInfo, w1) \<Rightarrow>
     (let userId = user_id userInfo;
          permissionSetQuery =
            ''SELECT Id FROM PermissionSet WHERE Name = ''
              @ [CHR 0x27] @ permissionSetName @ [CHR 0x27]
      in case call_query conn permissionSetQuery w1 of
        (Inl e, w2) \<Rightarrow> (Inl e, w2)
      | (Inr permissionSetResult, w2) \<Rightarrow>
     (if length permissionSetResult = 0
      then (Inl (new_Error (''Permission set '' @ [CHR 0x27] @ permissionSetName
                    @ [CHR 0x27] @ '' not found'')), w2)
      else
     (let permissionSetId = read (Id (permissionSetResult ! 0));
          existingAssignmentQuery =
            ''SELECT Id FROM PermissionSetAssignment WHERE PermissionSetId = ''
              @ [CHR 0x27] @ text_of permissionSetId @ [CHR 0x27]
              @ '' AND AssigneeId = '' @ [CHR 0x27] @ userId @ [CHR 0x27]
      in case call_query conn existingAssignmentQuery w2 of
        (Inl e, w3) \<Rightarrow> (Inl e, w3)
      | (Inr existingAssignment, w3) \<Rightarrow>
     (if length existingAssignment > 0 then (Inr False, w3)
      else
     (let assignment = \<lparr> PermissionSetId = permissionSetId, AssigneeId = userId \<rparr>
      in case call_create conn ''PermissionSetAssignment'' assignment w3 of
        (Inl e, w4) \<Rightarrow> (Inl e, w4)
      | (Inr result, w4) \<Rightarrow>
     (if success result then (Inr True, w4)
      else (Inl (new_Error (''Failed to assign permission set: ''
                   @ text_of (map_option (join '', '') (errors result)))), w4))))))))"

definition verifyObject :: "'b Connection \<Rightarrow> jsstring \<Rightarrow> jsstring list \<Rightarrow> (bool, 'b) run" where
  "verifyObject conn objectName requiredFields w =
     (case call_describe conn objectName w of
        (Inl error, w1) \<Rightarrow>
          (if errorCode error = Some ''NOT_FOUND'' then (Inr False, w1) else (Inl error, w1))
      | (Inr describe, w1) \<Rightarrow>
     (let existingFields = map name (fields' describe);
          missingFields = filter (\<lambda>field. field \<notin> set existingFields) requiredFields
      in if length missingFields > 0 then (Inr False, w1) else (Inr True, w1)))"

definition deployFolder :: "'b Connection \<Rightarrow> jsstring \<Rightarrow> (DeployResult, 'b) run" where
  "deployFolder conn folder w =
     (case call_deploy conn folder w of
        (Inl e, w1) \<Rightarrow> (Inl e, w1)
      | (Inr result, w1) \<Rightarrow>
          (if \<not> response_success result
           then (Inl (new_Error (''Deploy failed: '' @ text_of (response_details result))), w1)
           else (Inr result, w1)))"

section \<open>setup.ts\<close>

definition verifyLog :: "'b Connection \<Rightarrow> (bool, 'b) run" where
  "verifyLog conn w = verifyObject conn LOG_OBJECT LOG_FIELDS w"

definition deployLog :: "'b Connection \<Rightarrow> (DeployResult, 'b) run" where
  "deployLog conn w = (let folder = force_folder w in deployFolder conn folder w)"

definition assignPermissionSetForLog :: "'b Connection \<Rightarrow> (bool, 'b) run" where
  "assignPermissionSetForLog conn w = assignPermissionSet conn ''Log'' w"

definition setupLog :: "'b Connection \<Rightarrow> (unit, 'b) run" where
  "setupLog conn w =
     (case verifyLog conn w of
        (Inl e, w1) \<Rightarrow> (Inl e, w1)
      | (Inr verified, w1) \<Rightarrow>
     (if \<not> verified then
        (case deployLog conn w1 of
           (Inl e, w2) \<Rightarrow> (Inl e, w2)
         | (Inr _, w2) \<Rightarrow>
        (case assignPermissionSetForLog conn w2 of
           (Inl e, w3) \<Rightarrow> (Inl e, w3)
         | (Inr _, w3) \<Rightarrow>
        (case verifyLog conn w3 of
           (Inl e, w4) \<Rightarrow> (Inl e, w4)
         | (Inr verified_again, w4) \<Rightarrow>
             (if \<not> verified_again then (Inl (new_Error ''Log object setup failed''), w4)
              else (Inr (), w4)))))
      else (Inr (), w1)))"

section \<open>logger.ts\<close>

record 'b Logger =
  conn :: "'b Connection"
  defaults :: BaseLog
  echo :: bool

text \<open>
  The constructor. Its options object \<open>{conn, echo?, system?, user?}\<close> is given key by
  key. \<open>a ?? b\<close> evaluates \<open>b\<close> only when \<open>a\<close> reads \<open>undefined\<close>, so
  \<open>userInfo()\<close> can throw only when no user is given.
\<close>

definition constructor ::
  "'b Connection \<Rightarrow> bool property \<Rightarrow> jsstring property \<Rightarrow> jsstring property \<Rightarrow>
   'b World \<Rightarrow> exn + 'b Logger" where
  "constructor options_conn options_echo options_system options_user w =
     (let system_default =
            (case read options_system of None \<Rightarrow> hostname w | Some s \<Rightarrow> s)
      in case (case read options_user of None \<Rightarrow> userInfo_username w | Some u \<Rightarrow> Inr u) of
           Inl e \<Rightarrow> Inl e
         | Inr user_default \<Rightarrow> Inr
             \<lparr> conn = options_conn,
               defaults = \<lparr> level = Missing, message = Missing, stack = Missing,
                            system = Value system_default, user = Value user_default \<rparr>,
               echo = (case read options_echo of None \<Rightarrow> False | Some b \<Rightarrow> b) \<rparr>)"

text \<open>The method \<open>setup()\<close>.\<close>

definition Logger_setup :: "'b Logger \<Rightarrow> (unit, 'b) run" where
  "Logger_setup this w = setupLog (conn this) w"

text \<open>
  \<open>{...a, ...b}\<close> on log objects, and \<open>{...a, ...b}\<close> where \<open>b\<close> may be \<open>undefined\<close>
  (a parameter \<open>log?\<close> that is not given). An object literal that does not name a
  key has \<open>Missing\<close> there. In the methods below the parameters \<open>message\<close> and
  \<open>log\<close> are written \<open>msg\<close> and \<open>lg\<close>: the names are those of a record field and
  of the method.
\<close>

definition spread :: "BaseLog \<Rightarrow> BaseLog \<Rightarrow> BaseLog" where
  "spread a b =
     \<lparr> level = over (level a) (level b),
       message = over (message a) (message b),
       stack = over (stack a) (stack b),
       system = over (system a) (system b),
       user = over (user a) (user b) \<rparr>"

fun spread_optional :: "BaseLog \<Rightarrow> BaseLog option \<Rightarrow> BaseLog" where
  "spread_optional a None = a"
| "spread_optional a (Some b) = spread a b"

definition log :: "'b Logger \<Rightarrow> BaseLog \<Rightarrow> (unit, 'b) run" where
  "log this lg w =
     (let logToInsert = spread (defaults this) lg;
          w1 = (if echo this then w\<lparr>console := console w @ [logToInsert]\<rparr> else w)
      in case toSfLog logToInsert of
           Inl e \<Rightarrow> (Inl e, w1)
         | Inr sfLog \<Rightarrow>
             (case call_insert (conn this) LOG_OBJECT sfLog w1 of
                (Inl e, w2) \<Rightarrow> (Inl e, w2)
              | (Inr _, w2) \<Rightarrow> (Inr (), w2)))"

definition trace :: "'b Logger \<Rightarrow> jsstring \<Rightarrow> BaseLog option \<Rightarrow> (unit, 'b) run" where
  "trace this msg lg w =
     log this (spread_optional
       \<lparr> level = Value Trace, message = Value msg, stack = Missing, system = Missing,
         user = Missing \<rparr> lg) w"

definition debug :: "'b Logger \<Rightarrow> jsstring \<Rightarrow> BaseLog option \<Rightarrow> (unit, 'b) run" where
  "debug this msg lg w =
     log this (spread_optional
       \<lparr> level = Value Debug, message = Value msg, stack = Missing, system = Missing,
         user = Missing \<rparr> lg) w"

definition info :: "'b Logger \<Rightarrow> jsstring \<Rightarrow> BaseLog option \<Rightarrow> (unit, 'b) run" where
  "info this msg lg w =
     log this (spread_optional
       \<lparr> level = Value Info, message = Value msg, stack = Missing, system = Missing,
         user = Missing \<rparr> lg) w"

definition warn :: "'b Logger \<Rightarrow> jsstring \<Rightarrow> BaseLog option \<Rightarrow> (unit, 'b) run" where
  "warn this msg lg w =
     log this (spread_optional
       \<lparr> level = Value Warn, message = Value msg, stack = Missing, system = Missing,
         user = Missing \<rparr> lg) w"

text \<open>
  A thrown value is of type \<open>unknown\<close>. What \<open>error\<close> asks of it: whether it is an
  \<open>instanceof Error\<close>, then its \<open>message\<close>, its \<open>stack\<close> (a string or \<open>undefined\<close>)
  and its \<open>cause\<close>, again any value; of any other value only what \<open>JSON.stringify\<close>
  makes of it: a text, \<open>undefined\<close>, or an exception. A value of this datatype is
  finite, so a cause chain that runs into itself is not a value of the model.
\<close>

datatype thrown =
  ErrorObject jsstring "jsstring option" thrown
| Other "exn + jsstring option"

text \<open>
  The loop \<open>while (cause instanceof Error)\<close>, with the variables \<open>message\<close> and
  \<open>stack\<close> as a pair. \<open>stack += ...\<close> on \<open>undefined\<close> continues the text
  \<open>undefined\<close>.
\<close>

fun while_cause :: "thrown \<Rightarrow> jsstring \<times> jsstring option \<Rightarrow> jsstring \<times> jsstring option" where
  "while_cause (ErrorObject cause_message cause_stack cause_cause) (msg, stk) =
     while_cause cause_cause
       (msg @ '' | Cause: '' @ cause_message,
        Some (text_of stk @ [CHR ''\<newline>''] @ ''Caused by: '' @ text_of cause_stack))"
| "while_cause (Other _) (msg, stk) = (msg, stk)"

definition error :: "'b Logger \<Rightarrow> thrown \<Rightarrow> BaseLog option \<Rightarrow> (unit, 'b) run" where
  "error this thrown lg w =
     (case (case thrown of
              ErrorObject thrown_message thrown_stack thrown_cause \<Rightarrow>
                Inr (while_cause thrown_cause (thrown_message, thrown_stack))
            | Other json \<Rightarrow>
                (case json of
                   Inl e \<Rightarrow> Inl e
                 | Inr t \<Rightarrow> Inr (''Non error thrown: '' @ text_of t, None))) of
        Inl e \<Rightarrow> (Inl e, w)
      | Inr (msg, stk) \<Rightarrow>
          log this (spread_optional
            \<lparr> level = Value Error, message = Value msg, stack = holding stk, system = Missing,
              user = Missing \<rparr> lg) w)"

definition fatal :: "'b Logger \<Rightarrow> thrown \<Rightarrow> BaseLog option \<Rightarrow> (unit, 'b) run" where
  "fatal this thrown lg w =
     error this thrown
       (Some (spread_optional
          \<lparr> level = Value Fatal, message = Missing, stack = Missing, system = Missing,
            user = Missing \<rparr> lg)) w"

text \<open>
  A JavaScript number, as \<open>getLogs\<close> meets it: in a condition, where it is truthy or
  not, and in a template literal, where it is printed.
  \<^item> \<open>Integer k\<close> is the integer \<open>sint k\<close>, from \<open>-2^53\<close> up to \<open>2^53 - 1\<close>. Each of
    these is a number of the engine and is printed in decimal. \<open>Integer 0\<close> stands for
    \<open>0\<close> and for \<open>-0\<close>: both are falsy and both are printed \<open>0\<close>.
  \<^item> \<open>NaN\<close> is falsy and is printed \<open>NaN\<close>.
  \<^item> \<open>OtherNumber t\<close> is a number that is none of these (a fraction, an infinity, an integer
    of larger magnitude), given by the text \<open>t\<close> the engine prints for it, such as
    \<open>1.5\<close>, \<open>Infinity\<close> or \<open>1e+21\<close>. Every such number is truthy.
\<close>

datatype number = Integer "54 word" | NaN | OtherNumber jsstring

fun truthy :: "number \<Rightarrow> bool" where
  "truthy (Integer k) = (k \<noteq> 0)"
| "truthy NaN = False"
| "truthy (OtherNumber t) = True"

function digits :: "nat \<Rightarrow> jsstring" where
  "digits n = (if n < 10 then [''0123456789'' ! n] else digits (n div 10) @ [''0123456789'' ! (n mod 10)])"
  by pat_completeness auto
termination
  by (relation "measure (\<lambda>n. n)") auto

declare digits.simps [simp del]

fun number_text :: "number \<Rightarrow> jsstring" where
  "number_text (Integer k) =
     (if sint k < 0 then ''-'' @ digits (nat (- sint k)) else digits (nat (sint k)))"
| "number_text NaN = ''NaN''"
| "number_text (OtherNumber t) = t"

record GetLogsOptions =
  limit :: "number property"

definition getLogs :: "'b Logger \<Rightarrow> GetLogsOptions option \<Rightarrow> (Log list, 'b) run" where
  "getLogs this options w =
     (let lim = (case options of None \<Rightarrow> None | Some opts \<Rightarrow> read (limit opts));
          soql = join '' ''
            (filter (\<lambda>s. s \<noteq> [])
              [''SELECT '' @ join '', '' LOG_FIELDS,
               ''FROM '' @ LOG_OBJECT,
               ''ORDER BY CreatedDate DESC'',
               (case lim of
                  None \<Rightarrow> []
                | Some n \<Rightarrow> if truthy n then ''LIMIT '' @ number_text n else [])])
      in case call_query (conn this) soql w of
           (Inl e, w1) \<Rightarrow> (Inl e, w1)
         | (Inr records, w1) \<Rightarrow> (Inr (map fromSfLog records), w1))"

section \<open>A small backend\<close>

text \<open>
  An in-memory backend, to run the program on: whether the log object is deployed, the
  users the permission set is assigned to, and the stored rows, newest first. The
  instances of the theorems below are computed on it.
\<close>

record Org =
  deployed :: bool
  assignees :: "jsstring list"
  stored :: "SfLog list"

definition Id_row :: "jsstring \<Rightarrow> SfLog" where
  "Id_row i =
     \<lparr> Level__c = Missing, Message__c = Missing, Stack__c = Missing, System__c = Missing,
       User__c = Missing, Id = Value i, CreatedDate = Missing \<rparr>"

definition org_connection :: "Org Connection" where
  "org_connection =
     \<lparr> sobject_describe = (\<lambda>org objectName.
         if deployed org \<and> objectName = LOG_OBJECT
         then Inr \<lparr> fields' = map (\<lambda>f. \<lparr> name = f \<rparr>) LOG_FIELDS \<rparr>
         else Inl (Exn (Some ''NOT_FOUND'') ''The requested resource does not exist'')),
       identity = (\<lambda>org. Inr \<lparr> user_id = ''005A'' \<rparr>),
       query = (\<lambda>org soql.
         if prefix ''SELECT Id FROM PermissionSetAssignment'' soql
         then Inr (map Id_row (assignees org))
         else if prefix ''SELECT Id FROM PermissionSet'' soql
         then Inr [Id_row ''0PS1'']
         else Inr (stored org)),
       sobject_create = (\<lambda>org objectName a.
         (Inr \<lparr> success = True, errors = None \<rparr>,
          org\<lparr>assignees := AssigneeId a # assignees org\<rparr>)),
       sobject_insert = (\<lambda>org objectName r.
         (Inr \<lparr> success = True, errors = None \<rparr>,
          org\<lparr>stored := assigned r ''a00'' ''2026-01-01T00:00:00Z'' # stored org\<rparr>)),
       deploy_pollStatus = (\<lambda>org folder.
         (Inr \<lparr> response_success = True, response_details = None \<rparr>,
          org\<lparr>deployed := True\<rparr>)) \<rparr>"

definition org_world :: "Org \<Rightarrow> Org World" where
  "org_world org =
     \<lparr> backend = org, calls = [], console = [], hostname = ''host1'',
       userInfo_username = Inr ''alice'', force_folder = ''/app/force'' \<rparr>"

definition sample_org :: Org where
  "sample_org = \<lparr> deployed = True, assignees = [''005A''], stored = [] \<rparr>"

definition org_logger :: "Org Logger" where
  "org_logger =
     \<lparr> conn = org_connection,
       defaults = \<lparr> level = Missing, message = Missing, stack = Missing,
                    system = Value ''S'', user = Value ''U'' \<rparr>,
       echo = False \<rparr>"

section \<open>What the properties speak of\<close>

text \<open>
  The links of a cause chain that are themselves errors, as the pairs of their message
  and stack, from the first cause on, up to the first value that is not an error.
\<close>

fun error_links :: "thrown \<Rightarrow> (jsstring \<times> jsstring option) list" where
  "error_links (ErrorObject m s c) = (m, s) # error_links c"
| "error_links (Other j) = []"

text \<open>How often a marker stands in a text: the number of positions it starts at.\<close>

fun occurrences :: "jsstring \<Rightarrow> jsstring \<Rightarrow> nat" where
  "occurrences marker [] = (if marker = [] then 1 else 0)"
| "occurrences marker (x # xs) =
     (if prefix marker (x # xs) then 1 else 0) + occurrences marker xs"

text \<open>
  Verification of the log object succeeds in a backend state: the object can be
  described and every required field is among the described ones.
\<close>

definition verifies :: "'b Connection \<Rightarrow> 'b \<Rightarrow> bool" where
  "verifies c b =
     (case sobject_describe c b LOG_OBJECT of
        Inl e \<Rightarrow> False
      | Inr d \<Rightarrow> list_all (\<lambda>f. f \<in> name ` set (fields' d)) LOG_FIELDS)"

text \<open>
  The query of \<open>getLogs\<close> as a shape: the projection of the canonical fields from the
  log object, newest first, and a row cap for a limit that is given and is truthy.
\<close>

definition soql_shape :: "number option \<Rightarrow> jsstring" where
  "soql_shape lim =
     ''SELECT '' @ join '', '' LOG_FIELDS @ '' FROM '' @ LOG_OBJECT
       @ '' ORDER BY CreatedDate DESC''
       @ (case lim of None \<Rightarrow> [] | Some n \<Rightarrow> if truthy n then '' LIMIT '' @ number_text n else [])"

text \<open>Two stored rows, the newer first.\<close>

definition two_rows :: "SfLog list" where
  "two_rows =
     [\<lparr> Level__c = Value Warn, Message__c = Value ''second'', Stack__c = Undefined,
        System__c = Value ''S'', User__c = Value ''U'', Id = Value ''a02'',
        CreatedDate = Value ''2026-01-02T00:00:00Z'' \<rparr>,
      \<lparr> Level__c = Value Info, Message__c = Value ''first'', Stack__c = Undefined,
        System__c = Value ''S'', User__c = Value ''U'', Id = Value ''a01'',
        CreatedDate = Value ''2026-01-01T00:00:00Z'' \<rparr>]"

section \<open>The record mapper\<close>

lemma read_holding: "read (holding x) = x"
  by (cases x) simp_all

lemma slice_from_start: "slice s 0 n = take n s"
  by (simp add: slice_def)

lemma toSfLog_typed:
  assumes "is_BaseLog r"
  shows "\<exists>m. read (message r) = Some m \<and> toSfLog r = Inr
          \<lparr> Level__c = holding (read (level r)),
            Message__c = Value (take 255 m),
            Stack__c = holding (map_option (take 32768) (read (stack r))),
            System__c = holding (map_option (take 255) (read (system r))),
            User__c = holding (map_option (take 80) (read (user r))) \<rparr>"
proof -
  from assms obtain m where m: "read (message r) = Some m"
    by (auto simp: is_BaseLog_def)
  have "(\<lambda>s. slice s 0 n) = take n" for n
    by (rule ext) (simp add: slice_from_start)
  with m show ?thesis
    by (simp add: toSfLog_def slice_from_start)
qed

text \<open>
  C1. A record of type \<open>BaseLog\<close> is written and read back: \<open>toSfLog\<close> does not
  throw, and \<open>fromSfLog\<close> of its result with the backend's \<open>Id\<close> and \<open>CreatedDate\<close>
  reads the level of the record, its message cut to 255, its stack to 32768, its system
  to 255 and its user to 80 code units (a field that reads \<open>undefined\<close> in the record
  reads \<open>undefined\<close> in the result), and as id and timestamp the two assigned values.
\<close>

theorem fromSfLog_toSfLog_roundtrip:
  assumes "is_BaseLog r"
  shows "\<exists>s. toSfLog r = Inr s \<and>
           read (level (fromSfLog (assigned s i d))) = read (level r) \<and>
           read (message (fromSfLog (assigned s i d))) = map_option (take 255) (read (message r)) \<and>
           read (stack (fromSfLog (assigned s i d))) = map_option (take 32768) (read (stack r)) \<and>
           read (system (fromSfLog (assigned s i d))) = map_option (take 255) (read (system r)) \<and>
           read (user (fromSfLog (assigned s i d))) = map_option (take 80) (read (user r)) \<and>
           read (id' (fromSfLog (assigned s i d))) = Some i \<and>
           read (timestamp (fromSfLog (assigned s i d))) = Some d"
proof -
  from toSfLog_typed [OF assms] obtain m s where
    m: "read (message r) = Some m" and s: "toSfLog r = Inr s" and
    s_def: "s = \<lparr> Level__c = holding (read (level r)),
            Message__c = Value (take 255 m),
            Stack__c = holding (map_option (take 32768) (read (stack r))),
            System__c = holding (map_option (take 255) (read (system r))),
            User__c = holding (map_option (take 80) (read (user r))) \<rparr>"
    by blast
  show ?thesis
    unfolding s
    by (rule exI [of _ s])
      (simp add: s_def m fromSfLog_def assigned_def BaseSfLog.extend_def read_holding)
qed

theorem fromSfLog_toSfLog_roundtrip_witness:
  "is_BaseLog \<lparr> level = Value Warn, message = Value (replicate 300 CHR ''A''),
        stack = Missing, system = Undefined, user = Value ''root'' \<rparr> \<and>
   (\<exists>s. toSfLog \<lparr> level = Value Warn, message = Value (replicate 300 CHR ''A''),
        stack = Missing, system = Undefined, user = Value ''root'' \<rparr> = Inr s \<and>
      read (level (fromSfLog (assigned s ''a0X'' ''2026-01-01''))) = Some Warn \<and>
      read (message (fromSfLog (assigned s ''a0X'' ''2026-01-01''))) = Some (replicate 255 CHR ''A'') \<and>
      read (stack (fromSfLog (assigned s ''a0X'' ''2026-01-01''))) = None \<and>
      read (system (fromSfLog (assigned s ''a0X'' ''2026-01-01''))) = None \<and>
      read (user (fromSfLog (assigned s ''a0X'' ''2026-01-01''))) = Some ''root'' \<and>
      read (id' (fromSfLog (assigned s ''a0X'' ''2026-01-01''))) = Some ''a0X'' \<and>
      read (timestamp (fromSfLog (assigned s ''a0X'' ''2026-01-01''))) = Some ''2026-01-01'')"
  using fromSfLog_toSfLog_roundtrip
    [of "\<lparr> level = Value Warn, message = Value (replicate 300 CHR ''A''),
        stack = Missing, system = Undefined, user = Value ''root'' \<rparr>" "''a0X''" "''2026-01-01''"]
  by (simp add: is_BaseLog_def)

text \<open>
  C2. For a record of type \<open>BaseLog\<close>, \<open>toSfLog\<close> writes a message of at most 255
  code units, and a stack, system and user, where the result holds one, of at most 32768,
  255 and 80; each is a prefix of the field it was made from; a field that reads
  \<open>undefined\<close> in the record reads \<open>undefined\<close> in the result. \<open>fromSfLog\<close> changes
  nothing: every field of its result reads what the row \<open>q\<close> holds.
\<close>

theorem toSfLog_truncates_at_write:
  assumes "is_BaseLog r"
  shows "\<exists>s. toSfLog r = Inr s \<and>
           (\<exists>m m0. read (Message__c s) = Some m \<and> read (message r) = Some m0 \<and>
              length m \<le> 255 \<and> prefix m m0) \<and>
           (\<forall>t. read (Stack__c s) = Some t \<longrightarrow>
              length t \<le> 32768 \<and> (\<exists>t0. read (stack r) = Some t0 \<and> prefix t t0)) \<and>
           (\<forall>t. read (System__c s) = Some t \<longrightarrow>
              length t \<le> 255 \<and> (\<exists>t0. read (system r) = Some t0 \<and> prefix t t0)) \<and>
           (\<forall>t. read (User__c s) = Some t \<longrightarrow>
              length t \<le> 80 \<and> (\<exists>t0. read (user r) = Some t0 \<and> prefix t t0)) \<and>
           (read (stack r) = None \<longrightarrow> read (Stack__c s) = None) \<and>
           (read (system r) = None \<longrightarrow> read (System__c s) = None) \<and>
           (read (user r) = None \<longrightarrow> read (User__c s) = None) \<and>
           read (level (fromSfLog q)) = read (Level__c q) \<and>
           read (message (fromSfLog q)) = read (Message__c q) \<and>
           read (stack (fromSfLog q)) = read (Stack__c q) \<and>
           read (system (fromSfLog q)) = read (System__c q) \<and>
           read (user (fromSfLog q)) = read (User__c q) \<and>
           read (id' (fromSfLog q)) = read (Id q) \<and>
           read (timestamp (fromSfLog q)) = read (CreatedDate q)"
proof -
  from toSfLog_typed [OF assms] obtain m s where
    m: "read (message r) = Some m" and s: "toSfLog r = Inr s" and
    s_def: "s = \<lparr> Level__c = holding (read (level r)),
            Message__c = Value (take 255 m),
            Stack__c = holding (map_option (take 32768) (read (stack r))),
            System__c = holding (map_option (take 255) (read (system r))),
            User__c = holding (map_option (take 80) (read (user r))) \<rparr>"
    by blast
  have written: "(\<exists>m m0. read (Message__c s) = Some m \<and> read (message r) = Some m0 \<and>
              length m \<le> 255 \<and> prefix m m0) \<and>
           (\<forall>t. read (Stack__c s) = Some t \<longrightarrow>
              length t \<le> 32768 \<and> (\<exists>t0. read (stack r) = Some t0 \<and> prefix t t0)) \<and>
           (\<forall>t. read (System__c s) = Some t \<longrightarrow>
              length t \<le> 255 \<and> (\<exists>t0. read (system r) = Some t0 \<and> prefix t t0)) \<and>
           (\<forall>t. read (User__c s) = Some t \<longrightarrow>
              length t \<le> 80 \<and> (\<exists>t0. read (user r) = Some t0 \<and> prefix t t0)) \<and>
           (read (stack r) = None \<longrightarrow> read (Stack__c s) = None) \<and>
           (read (system r) = None \<longrightarrow> read (System__c s) = None) \<and>
           (read (user r) = None \<longrightarrow> read (User__c s) = None)"
    by (auto simp: s_def m read_holding take_is_prefix)
  have read_back: "read (level (fromSfLog q)) = read (Level__c q) \<and>
           read (message (fromSfLog q)) = read (Message__c q) \<and>
           read (stack (fromSfLog q)) = read (Stack__c q) \<and>
           read (system (fromSfLog q)) = read (System__c q) \<and>
           read (user (fromSfLog q)) = read (User__c q) \<and>
           read (id' (fromSfLog q)) = read (Id q) \<and>
           read (timestamp (fromSfLog q)) = read (CreatedDate q)"
    by (simp add: fromSfLog_def read_holding)
  show ?thesis
    using s written read_back by (intro exI [of _ s] conjI) (elim conjE, assumption)+
qed

theorem toSfLog_truncates_at_write_witness:
  "is_BaseLog \<lparr> level = Value Info, message = Value (''LONG-'' @ replicate 295 CHR ''A''),
        stack = Value ''at main'', system = Missing, user = Undefined \<rparr> \<and>
   (\<exists>s. toSfLog \<lparr> level = Value Info, message = Value (''LONG-'' @ replicate 295 CHR ''A''),
        stack = Value ''at main'', system = Missing, user = Undefined \<rparr> = Inr s \<and>
      read (Message__c s) = Some (''LONG-'' @ replicate 250 CHR ''A'') \<and>
      read (Stack__c s) = Some ''at main'' \<and>
      read (System__c s) = None \<and>
      read (User__c s) = None) \<and>
   is_BaseLog \<lparr> level = Value Error, message = Value ''m'',
        stack = Value (replicate 40000 CHR ''s''), system = Value (replicate 300 CHR ''h''),
        user = Value (replicate 100 CHR ''u'') \<rparr> \<and>
   (\<exists>s. toSfLog \<lparr> level = Value Error, message = Value ''m'',
        stack = Value (replicate 40000 CHR ''s''), system = Value (replicate 300 CHR ''h''),
        user = Value (replicate 100 CHR ''u'') \<rparr> = Inr s \<and>
      read (Message__c s) = Some ''m'' \<and>
      read (Stack__c s) = Some (replicate 32768 CHR ''s'') \<and>
      read (System__c s) = Some (replicate 255 CHR ''h'') \<and>
      read (User__c s) = Some (replicate 80 CHR ''u''))"
  using toSfLog_truncates_at_write
    [where r = "\<lparr> level = Value Info, message = Value (''LONG-'' @ replicate 295 CHR ''A''),
        stack = Value ''at main'', system = Missing, user = Undefined \<rparr>"]
    toSfLog_truncates_at_write
    [where r = "\<lparr> level = Value Error, message = Value ''m'',
        stack = Value (replicate 40000 CHR ''s''), system = Value (replicate 300 CHR ''h''),
        user = Value (replicate 100 CHR ''u'') \<rparr>"]
  by (simp add: is_BaseLog_def toSfLog_def slice_def)

section \<open>The logger: merging\<close>

lemma over_Missing_left: "over Missing b = b"
  by (cases b) simp_all

lemma over_Missing_iff: "over a b = (if b = Missing then a else b)"
  by (cases b) simp_all

lemma calls_log:
  assumes "toSfLog (spread (defaults this) r) = Inr s"
  shows "calls (snd (log this r w)) = calls w @ [Insert LOG_OBJECT s]"
  using assms
  by (simp add: log_def call_insert_def Let_def split: prod.splits sum.splits)

lemma defaults_constructor:
  assumes "constructor c e sy us w0 = Inr this"
  shows "\<exists>u. defaults this =
     \<lparr> level = Missing, message = Missing, stack = Missing,
       system = Value (case read sy of None \<Rightarrow> hostname w0 | Some x \<Rightarrow> x),
       user = Value u \<rparr> \<and>
     (case read us of None \<Rightarrow> userInfo_username w0 | Some x \<Rightarrow> Inr x) = Inr u"
  using assms
  by (auto simp: constructor_def Let_def split: sum.splits)

lemma toSfLog_total: "read (message r) \<noteq> None \<Longrightarrow> \<exists>s. toSfLog r = Inr s"
  by (auto simp: toSfLog_def)

text \<open>
  C3. A logger made by the constructor holds as defaults the system and the user it
  was given, or the machine's. \<open>log\<close> of a record of type \<open>BaseLog\<close> issues one insert
  of \<open>toSfLog\<close> of the merged record: every key the record has is taken from the
  record, and \<open>system\<close> and \<open>user\<close> are taken from the defaults only when the record
  has no such key. On a logger made with system \<open>S\<close> and user \<open>U\<close>, \<open>info(m)\<close>
  inserts a record of level \<open>info\<close> with system \<open>S\<close> and user \<open>U\<close> (cut to the field
  lengths).
\<close>

theorem log_merges_record_over_defaults:
  assumes "constructor c e sy us w0 = Inr this" and "is_BaseLog r"
  shows "(\<exists>s. toSfLog \<lparr> level = level r, message = message r, stack = stack r,
                 system = (if system r = Missing then system (defaults this) else system r),
                 user = (if user r = Missing then user (defaults this) else user r) \<rparr> = Inr s \<and>
             calls (snd (log this r w)) = calls w @ [Insert LOG_OBJECT s]) \<and>
         read (system (defaults this)) = Some (case read sy of None \<Rightarrow> hostname w0 | Some x \<Rightarrow> x) \<and>
         (\<exists>u. read (user (defaults this)) = Some u \<and>
            (case read us of None \<Rightarrow> userInfo_username w0 | Some x \<Rightarrow> Inr x) = Inr u) \<and>
         (case constructor c e (Value S) (Value U) w0 of
            Inl _ \<Rightarrow> False
          | Inr made \<Rightarrow>
              calls (snd (info made m None w)) = calls w @ [Insert LOG_OBJECT
                \<lparr> Level__c = Value Info, Message__c = Value (take 255 m), Stack__c = Undefined,
                  System__c = Value (take 255 S), User__c = Value (take 80 U) \<rparr>])"
proof -
  from defaults_constructor [OF assms(1)] obtain u where
    d: "defaults this = \<lparr> level = Missing, message = Missing, stack = Missing,
       system = Value (case read sy of None \<Rightarrow> hostname w0 | Some x \<Rightarrow> x), user = Value u \<rparr>"
    and u: "(case read us of None \<Rightarrow> userInfo_username w0 | Some x \<Rightarrow> Inr x) = Inr u"
    by blast
  have merged: "spread (defaults this) r =
      \<lparr> level = level r, message = message r, stack = stack r,
        system = (if system r = Missing then system (defaults this) else system r),
        user = (if user r = Missing then user (defaults this) else user r) \<rparr>"
    by (simp add: spread_def d over_Missing_left over_Missing_iff)
  from assms(2) have "read (message (spread (defaults this) r)) \<noteq> None"
    by (simp add: merged is_BaseLog_def)
  from toSfLog_total [OF this] obtain s where s: "toSfLog (spread (defaults this) r) = Inr s"
    by blast
  have first: "\<exists>s. toSfLog \<lparr> level = level r, message = message r, stack = stack r,
                 system = (if system r = Missing then system (defaults this) else system r),
                 user = (if user r = Missing then user (defaults this) else user r) \<rparr> = Inr s \<and>
             calls (snd (log this r w)) = calls w @ [Insert LOG_OBJECT s]"
    using s calls_log [OF s, of w] by (simp add: merged)
  have second: "read (system (defaults this)) = Some (case read sy of None \<Rightarrow> hostname w0 | Some x \<Rightarrow> x)"
    by (simp add: d)
  have third: "\<exists>u. read (user (defaults this)) = Some u \<and>
            (case read us of None \<Rightarrow> userInfo_username w0 | Some x \<Rightarrow> Inr x) = Inr u"
    by (simp add: d u)
  have made: "constructor c e (Value S) (Value U) w0 = Inr
      \<lparr> conn = c, defaults = \<lparr> level = Missing, message = Missing, stack = Missing,
                    system = Value S, user = Value U \<rparr>,
        echo = (case read e of None \<Rightarrow> False | Some b \<Rightarrow> b) \<rparr>"
    by (simp add: constructor_def)
  have fourth: "(case constructor c e (Value S) (Value U) w0 of
            Inl _ \<Rightarrow> False
          | Inr made \<Rightarrow>
              calls (snd (info made m None w)) = calls w @ [Insert LOG_OBJECT
                \<lparr> Level__c = Value Info, Message__c = Value (take 255 m), Stack__c = Undefined,
                  System__c = Value (take 255 S), User__c = Value (take 80 U) \<rparr>])"
    unfolding made
    by (simp add: info_def, rule calls_log) (simp add: spread_def toSfLog_def slice_from_start)
  from first second third fourth show ?thesis
    by (intro conjI)
qed

theorem log_merges_record_over_defaults_witness:
  "constructor org_connection Missing (Value ''S'') (Value ''U'') (org_world sample_org)
     = Inr org_logger \<and>
   is_BaseLog \<lparr> level = Value Debug, message = Value ''m'', stack = Missing,
                system = Value ''billing'', user = Missing \<rparr> \<and>
   calls (snd (log org_logger
       \<lparr> level = Value Debug, message = Value ''m'', stack = Missing,
         system = Value ''billing'', user = Missing \<rparr> (org_world sample_org))) =
     [Insert ''Log__c''
       \<lparr> Level__c = Value Debug, Message__c = Value ''m'', Stack__c = Undefined,
         System__c = Value ''billing'', User__c = Value ''U'' \<rparr>] \<and>
   calls (snd (info org_logger ''m'' None (org_world sample_org))) =
     [Insert ''Log__c''
       \<lparr> Level__c = Value Info, Message__c = Value ''m'', Stack__c = Undefined,
         System__c = Value ''S'', User__c = Value ''U'' \<rparr>]"
  using log_merges_record_over_defaults
    [where c = org_connection and e = Missing and sy = "Value ''S''" and us = "Value ''U''"
       and ?w0.0 = "org_world sample_org" and this = org_logger
       and r = "\<lparr> level = Value Debug, message = Value ''m'', stack = Missing,
           system = Value ''billing'', user = Missing \<rparr>"
       and w = "org_world sample_org" and S = "''S''" and U = "''U''" and m = "''m''"]
  by (simp add: constructor_def org_logger_def is_BaseLog_def toSfLog_def slice_def
      org_world_def LOG_OBJECT_def)

text \<open>
  C4. When the partial record given to \<open>trace\<close>, \<open>debug\<close>, \<open>info\<close> or \<open>warn\<close> has
  the key \<open>level\<close>, the record passed to \<open>log\<close> has the level of the partial record
  and not the method's own (and the message of the partial record where it has that
  key). So \<open>info(m, {level: 'error'})\<close> passes a record of level \<open>error\<close> to \<open>log\<close>,
  and the record inserted has that level.
\<close>

theorem convenience_level_overridden:
  assumes "level p \<noteq> Missing"
  shows "trace this m (Some p) w =
           log this \<lparr> level = level p, message = over (Value m) (message p), stack = stack p,
                      system = system p, user = user p \<rparr> w \<and>
         debug this m (Some p) w =
           log this \<lparr> level = level p, message = over (Value m) (message p), stack = stack p,
                      system = system p, user = user p \<rparr> w \<and>
         info this m (Some p) w =
           log this \<lparr> level = level p, message = over (Value m) (message p), stack = stack p,
                      system = system p, user = user p \<rparr> w \<and>
         warn this m (Some p) w =
           log this \<lparr> level = level p, message = over (Value m) (message p), stack = stack p,
                      system = system p, user = user p \<rparr> w \<and>
         info this m (Some \<lparr> level = Value Error, message = Missing, stack = Missing,
                             system = Missing, user = Missing \<rparr>) w =
           log this \<lparr> level = Value Error, message = Value m, stack = Missing,
                      system = Missing, user = Missing \<rparr> w \<and>
         (\<exists>s. calls (snd (info this m (Some \<lparr> level = Value Error, message = Missing,
                   stack = Missing, system = Missing, user = Missing \<rparr>) w))
                = calls w @ [Insert LOG_OBJECT s] \<and>
              Level__c s = Value Error)"
proof -
  have lvl: "over a (level p) = level p" for a
    using assms by (cases "level p") simp_all
  have passed: "spread \<lparr> level = a, message = Value m, stack = Missing, system = Missing,
                         user = Missing \<rparr> p =
      \<lparr> level = level p, message = over (Value m) (message p), stack = stack p,
        system = system p, user = user p \<rparr>" for a
    by (simp add: spread_def lvl over_Missing_left)
  have four: "trace this m (Some p) w =
           log this \<lparr> level = level p, message = over (Value m) (message p), stack = stack p,
                      system = system p, user = user p \<rparr> w"
         "debug this m (Some p) w =
           log this \<lparr> level = level p, message = over (Value m) (message p), stack = stack p,
                      system = system p, user = user p \<rparr> w"
         "info this m (Some p) w =
           log this \<lparr> level = level p, message = over (Value m) (message p), stack = stack p,
                      system = system p, user = user p \<rparr> w"
         "warn this m (Some p) w =
           log this \<lparr> level = level p, message = over (Value m) (message p), stack = stack p,
                      system = system p, user = user p \<rparr> w"
    by (simp_all add: trace_def debug_def info_def warn_def passed)
  have as_error: "info this m (Some \<lparr> level = Value Error, message = Missing, stack = Missing,
                             system = Missing, user = Missing \<rparr>) w =
           log this \<lparr> level = Value Error, message = Value m, stack = Missing,
                      system = Missing, user = Missing \<rparr> w"
    by (simp add: info_def spread_def)
  have "read (message (spread (defaults this) \<lparr> level = Value Error, message = Value m,
           stack = Missing, system = Missing, user = Missing \<rparr>)) \<noteq> None"
    by (simp add: spread_def)
  from toSfLog_total [OF this] obtain s where
    s: "toSfLog (spread (defaults this) \<lparr> level = Value Error, message = Value m,
           stack = Missing, system = Missing, user = Missing \<rparr>) = Inr s"
    by blast
  then have "Level__c s = Value Error"
    by (auto simp: toSfLog_def spread_def split: option.splits)
  with calls_log [OF s, of w] have inserted:
    "\<exists>s. calls (snd (info this m (Some \<lparr> level = Value Error, message = Missing,
                   stack = Missing, system = Missing, user = Missing \<rparr>) w))
                = calls w @ [Insert LOG_OBJECT s] \<and>
              Level__c s = Value Error"
    by (simp add: as_error)
  from four as_error inserted show ?thesis
    by (intro conjI)
qed

theorem convenience_level_overridden_witness:
  "level \<lparr> level = Value Fatal, message = Missing, stack = Missing, system = Missing,
           user = Value ''bob'' \<rparr> \<noteq> Missing \<and>
   warn org_logger ''disk full''
     (Some \<lparr> level = Value Fatal, message = Missing, stack = Missing, system = Missing,
             user = Value ''bob'' \<rparr>) (org_world sample_org) =
   log org_logger \<lparr> level = Value Fatal, message = Value ''disk full'', stack = Missing,
             system = Missing, user = Value ''bob'' \<rparr> (org_world sample_org) \<and>
   calls (snd (info org_logger ''m'' (Some \<lparr> level = Value Error, message = Missing,
             stack = Missing, system = Missing, user = Missing \<rparr>) (org_world sample_org))) =
     [Insert ''Log__c''
       \<lparr> Level__c = Value Error, Message__c = Value ''m'', Stack__c = Undefined,
         System__c = Value ''S'', User__c = Value ''U'' \<rparr>]"
  using convenience_level_overridden
    [where p = "\<lparr> level = Value Fatal, message = Missing, stack = Missing, system = Missing,
           user = Value ''bob'' \<rparr>" and this = org_logger and m = "''disk full''"
       and w = "org_world sample_org"]
    convenience_level_overridden
    [where p = "\<lparr> level = Value Fatal, message = Missing, stack = Missing, system = Missing,
           user = Value ''bob'' \<rparr>" and this = org_logger and m = "''m''"
       and w = "org_world sample_org"]
  by (simp add: org_logger_def org_world_def info_def log_def spread_def toSfLog_def slice_def
      call_insert_def org_connection_def LOG_OBJECT_def)

text \<open>
  C10. A record of type \<open>BaseLog\<close> whose key \<open>system\<close> is there and holds
  \<open>undefined\<close> is inserted with no system, whatever the default of the logger: the
  key of the record replaces the default. The same holds for \<open>user\<close>.
\<close>

theorem undefined_key_suppresses_default:
  assumes "is_BaseLog r"
  shows "\<exists>s. toSfLog (spread (defaults this) r) = Inr s \<and>
           calls (snd (log this r w)) = calls w @ [Insert LOG_OBJECT s] \<and>
           (system r = Undefined \<longrightarrow> read (System__c s) = None) \<and>
           (user r = Undefined \<longrightarrow> read (User__c s) = None)"
proof -
  from assms have "read (message (spread (defaults this) r)) \<noteq> None"
    by (cases "message r") (simp_all add: spread_def is_BaseLog_def)
  from toSfLog_total [OF this] obtain s where s: "toSfLog (spread (defaults this) r) = Inr s"
    by blast
  then have "(system r = Undefined \<longrightarrow> read (System__c s) = None) \<and>
             (user r = Undefined \<longrightarrow> read (User__c s) = None)"
    by (auto simp: toSfLog_def spread_def split: option.splits)
  with s calls_log [OF s, of w] show ?thesis
    by blast
qed

theorem undefined_key_suppresses_default_witness:
  "is_BaseLog \<lparr> level = Value Info, message = Value ''m'', stack = Missing,
                system = Undefined, user = Undefined \<rparr> \<and>
   read (system (defaults org_logger)) = Some ''S'' \<and>
   read (user (defaults org_logger)) = Some ''U'' \<and>
   calls (snd (log org_logger \<lparr> level = Value Info, message = Value ''m'', stack = Missing,
                system = Undefined, user = Undefined \<rparr> (org_world sample_org))) =
     [Insert ''Log__c''
       \<lparr> Level__c = Value Info, Message__c = Value ''m'', Stack__c = Undefined,
         System__c = Undefined, User__c = Undefined \<rparr>]"
  using undefined_key_suppresses_default
    [where r = "\<lparr> level = Value Info, message = Value ''m'', stack = Missing,
                system = Undefined, user = Undefined \<rparr>" and this = org_logger
       and w = "org_world sample_org"]
  by (simp add: is_BaseLog_def org_logger_def org_world_def spread_def toSfLog_def
      slice_def LOG_OBJECT_def)

section \<open>The logger: errors\<close>

lemma while_cause_links:
  "while_cause c (msg, stk) =
     (msg @ concat (map (\<lambda>(m, s). '' | Cause: '' @ m) (error_links c)),
      if error_links c = [] then stk
      else Some (text_of stk @
        concat (map (\<lambda>(m, s). [CHR ''\<newline>''] @ ''Caused by: '' @ text_of s) (error_links c))))"
proof (induction c arbitrary: msg stk)
  case (ErrorObject m s c)
  show ?case
    by (simp add: ErrorObject.IH)
next
  case (Other j)
  show ?case by simp
qed

text \<open>
  C5. For an error \<open>e\<close> (a value of the model, so with a finite cause chain),
  \<open>error(e)\<close> passes to \<open>log\<close> the level \<open>error\<close>, as message the message of \<open>e\<close>
  followed by \<open>" | Cause: " + message\<close> for each link of the chain that is an error, in
  order, and as stack the stack of \<open>e\<close> followed by \<open>"\nCaused by: " + stack\<close> for each
  such link; the chain ends at the first cause that is not an error. A stack that is
  \<open>undefined\<close> appears in such a text as the word \<open>undefined\<close>; with no link the stack
  is passed as it is. The chain Top, Mid, Root gives the message
  \<open>Top | Cause: Mid | Cause: Root\<close> and a stack with two markers \<open>Caused by:\<close>.
\<close>

theorem error_flattens_cause_chain:
  "error this (ErrorObject m s c) lg w =
     log this (spread_optional
       \<lparr> level = Value Error,
         message = Value (m @ concat (map (\<lambda>(cm, cs). '' | Cause: '' @ cm) (error_links c))),
         stack = holding
           (if error_links c = [] then s
            else Some (text_of s @ concat (map
              (\<lambda>(cm, cs). [CHR ''\<newline>''] @ ''Caused by: '' @ text_of cs) (error_links c)))),
         system = Missing, user = Missing \<rparr> lg) w \<and>
   error this
     (ErrorObject ''Top'' (Some ''Error: Top'')
       (ErrorObject ''Mid'' (Some ''Error: Mid'')
         (ErrorObject ''Root'' (Some ''Error: Root'') (Other (Inr None))))) None w =
     log this
       \<lparr> level = Value Error, message = Value ''Top | Cause: Mid | Cause: Root'',
         stack = Value (''Error: Top'' @ [CHR ''\<newline>''] @ ''Caused by: Error: Mid''
                   @ [CHR ''\<newline>''] @ ''Caused by: Error: Root''),
         system = Missing, user = Missing \<rparr> w \<and>
   occurrences ''Caused by:''
     (''Error: Top'' @ [CHR ''\<newline>''] @ ''Caused by: Error: Mid''
        @ [CHR ''\<newline>''] @ ''Caused by: Error: Root'') = 2"
proof -
  have general: "error this (ErrorObject m s c) lg w =
     log this (spread_optional
       \<lparr> level = Value Error,
         message = Value (m @ concat (map (\<lambda>(cm, cs). '' | Cause: '' @ cm) (error_links c))),
         stack = holding
           (if error_links c = [] then s
            else Some (text_of s @ concat (map
              (\<lambda>(cm, cs). [CHR ''\<newline>''] @ ''Caused by: '' @ text_of cs) (error_links c)))),
         system = Missing, user = Missing \<rparr> lg) w"
    by (simp add: error_def while_cause_links)
  have chain: "error this
     (ErrorObject ''Top'' (Some ''Error: Top'')
       (ErrorObject ''Mid'' (Some ''Error: Mid'')
         (ErrorObject ''Root'' (Some ''Error: Root'') (Other (Inr None))))) None w =
     log this
       \<lparr> level = Value Error, message = Value ''Top | Cause: Mid | Cause: Root'',
         stack = Value (''Error: Top'' @ [CHR ''\<newline>''] @ ''Caused by: Error: Mid''
                   @ [CHR ''\<newline>''] @ ''Caused by: Error: Root''),
         system = Missing, user = Missing \<rparr> w"
    by (simp add: error_def)
  have markers: "occurrences ''Caused by:''
     (''Error: Top'' @ [CHR ''\<newline>''] @ ''Caused by: Error: Mid''
        @ [CHR ''\<newline>''] @ ''Caused by: Error: Root'') = 2"
    by simp
  from general chain markers show ?thesis
    by (intro conjI)
qed

section \<open>The provisioner\<close>

lemma no_missing_fields:
  "(filter (\<lambda>field. field \<notin> S) required = []) = list_all (\<lambda>f. f \<in> S) required"
  by (induction required) simp_all

lemma verifyObject_run:
  "verifyObject c n required w =
     ((case sobject_describe c (backend w) n of
         Inl e \<Rightarrow> if errorCode e = Some ''NOT_FOUND'' then Inr False else Inl e
       | Inr d \<Rightarrow> Inr (list_all (\<lambda>f. f \<in> name ` set (fields' d)) required)),
      w\<lparr>calls := calls w @ [Describe n]\<rparr>)"
  by (simp add: verifyObject_def call_describe_def Let_def no_missing_fields
      split: sum.splits)

text \<open>
  C7. \<open>verifyObject\<close> issues one describe call. When that call fails with the error
  code \<open>NOT_FOUND\<close> the result is \<open>false\<close> and nothing is thrown; when it fails with
  anything else, that failure is thrown again; when it answers, the result is whether
  every required field is among the described fields. So the result is \<open>true\<close> exactly
  when the object is described and no required field is missing.
\<close>

theorem verifyObject_result:
  "fst (verifyObject c n required w) =
     (case sobject_describe c (backend w) n of
        Inl e \<Rightarrow> if errorCode e = Some ''NOT_FOUND'' then Inr False else Inl e
      | Inr d \<Rightarrow> Inr (\<forall>f \<in> set required. f \<in> name ` set (fields' d))) \<and>
   (fst (verifyObject c n required w) = Inr True) =
     (\<exists>d. sobject_describe c (backend w) n = Inr d \<and>
          (\<forall>f \<in> set required. f \<in> name ` set (fields' d))) \<and>
   calls (snd (verifyObject c n required w)) = calls w @ [Describe n]"
  by (auto simp: verifyObject_run list_all_iff split: sum.splits)

theorem verifyObject_result_witness:
  "fst (verifyObject org_connection ''Log__c'' LOG_FIELDS (org_world sample_org)) = Inr True \<and>
   fst (verifyObject org_connection ''Log__c'' (LOG_FIELDS @ [''Extra__c''])
          (org_world sample_org)) = Inr False \<and>
   fst (verifyObject org_connection ''Log__c'' LOG_FIELDS
          (org_world (sample_org\<lparr>deployed := False\<rparr>))) = Inr False \<and>
   fst (verifyObject
          (org_connection\<lparr>sobject_describe :=
             \<lambda>org objectName. Inl (Exn (Some ''INVALID_SESSION_ID'') ''Session expired'')\<rparr>)
          ''Log__c'' LOG_FIELDS (org_world sample_org))
     = Inl (Exn (Some ''INVALID_SESSION_ID'') ''Session expired'')"
  using verifyObject_result
      [where c = org_connection and n = "''Log__c''" and required = LOG_FIELDS
         and w = "org_world sample_org"]
    verifyObject_result
      [where c = org_connection and n = "''Log__c''" and required = "LOG_FIELDS @ [''Extra__c'']"
         and w = "org_world sample_org"]
    verifyObject_result
      [where c = org_connection and n = "''Log__c''" and required = LOG_FIELDS
         and w = "org_world (sample_org\<lparr>deployed := False\<rparr>)"]
    verifyObject_result
      [where c = "org_connection\<lparr>sobject_describe :=
             \<lambda>org objectName. Inl (Exn (Some ''INVALID_SESSION_ID'') ''Session expired'')\<rparr>"
         and n = "''Log__c''" and required = LOG_FIELDS and w = "org_world sample_org"]
  by (simp add: org_connection_def org_world_def sample_org_def LOG_OBJECT_def LOG_FIELDS_def)

lemma verifyLog_run:
  "verifyLog c w =
     ((case sobject_describe c (backend w) LOG_OBJECT of
         Inl e \<Rightarrow> if errorCode e = Some ''NOT_FOUND'' then Inr False else Inl e
       | Inr d \<Rightarrow> Inr (list_all (\<lambda>f. f \<in> name ` set (fields' d)) LOG_FIELDS)),
      w\<lparr>calls := calls w @ [Describe LOG_OBJECT]\<rparr>)"
  by (simp add: verifyLog_def verifyObject_run)

lemma verifyLog_True_iff:
  "(verifyLog c w = (Inr True, w')) =
     (verifies c (backend w) \<and> w' = w\<lparr>calls := calls w @ [Describe LOG_OBJECT]\<rparr>)"
  by (auto simp: verifyLog_run verifies_def split: sum.splits)

lemma setupLog_verified:
  assumes "verifies c (backend w)"
  shows "setupLog c w = (Inr (), w\<lparr>calls := calls w @ [Describe LOG_OBJECT]\<rparr>)"
proof -
  from assms have "verifyLog c w = (Inr True, w\<lparr>calls := calls w @ [Describe LOG_OBJECT]\<rparr>)"
    by (simp add: verifyLog_True_iff)
  then show ?thesis
    by (simp add: setupLog_def)
qed

lemma setupLog_establishes:
  assumes "setupLog c w = (Inr (), w')"
  shows "verifies c (backend w')"
proof (cases "verifyLog c w")
  case (Pair r1 w1)
  show ?thesis
  proof (cases "r1 = Inr True")
    case True
    with Pair have "verifies c (backend w)" and "w1 = w\<lparr>calls := calls w @ [Describe LOG_OBJECT]\<rparr>"
      by (simp_all add: verifyLog_True_iff)
    moreover from assms Pair True have "w' = w1"
      by (simp add: setupLog_def)
    ultimately show ?thesis by simp
  next
    case False
    with assms Pair obtain w3 where last: "verifyLog c w3 = (Inr True, w')"
      by (auto simp: setupLog_def split: sum.splits prod.splits if_splits)
    then show ?thesis
      by (simp add: verifyLog_True_iff)
  qed
qed

text \<open>
  C6. In a backend state where verification of the log object succeeds, \<open>setup()\<close>
  returns without an exception, issues the one describe call and nothing else (no
  deployment, no query, no assignment), and leaves the backend as it is. A \<open>setup()\<close>
  that has returned without an exception has left such a state, so \<open>setup()\<close> called
  again issues the one describe call and nothing else.
\<close>

theorem setup_verified_only_describes:
  "(verifies (conn this) (backend w) \<longrightarrow>
      Logger_setup this w = (Inr (), w\<lparr>calls := calls w @ [Describe LOG_OBJECT]\<rparr>)) \<and>
   (Logger_setup this w = (Inr (), w') \<longrightarrow>
      Logger_setup this w' = (Inr (), w'\<lparr>calls := calls w' @ [Describe LOG_OBJECT]\<rparr>))"
  unfolding Logger_setup_def
  using setupLog_verified setupLog_establishes by blast

theorem setup_verified_only_describes_witness:
  "verifies (conn org_logger) (backend (org_world sample_org)) \<and>
   Logger_setup org_logger (org_world sample_org)
     = (Inr (), (org_world sample_org)\<lparr>calls := [Describe ''Log__c'']\<rparr>) \<and>
   Logger_setup org_logger (org_world \<lparr> deployed = False, assignees = [], stored = [] \<rparr>)
     = (Inr (), (org_world \<lparr> deployed = True, assignees = [''005A''], stored = [] \<rparr>)
         \<lparr>calls := [Describe ''Log__c'', Deploy ''/app/force'', Identity,
            Query (''SELECT Id FROM PermissionSet WHERE Name = 'Log'' @ [CHR 0x27]),
            Query (''SELECT Id FROM PermissionSetAssignment WHERE PermissionSetId = '0PS1' AND AssigneeId = '005A'' @ [CHR 0x27]),
            Create ''PermissionSetAssignment''
              \<lparr> PermissionSetId = Some ''0PS1'', AssigneeId = ''005A'' \<rparr>,
            Describe ''Log__c'']\<rparr>) \<and>
   calls (snd (Logger_setup org_logger
       (snd (Logger_setup org_logger
          (org_world \<lparr> deployed = False, assignees = [], stored = [] \<rparr>)))))
     = calls (snd (Logger_setup org_logger
          (org_world \<lparr> deployed = False, assignees = [], stored = [] \<rparr>)))
       @ [Describe ''Log__c'']"
proof -
  have v: "verifies (conn org_logger) (backend (org_world sample_org))"
    by (simp add: verifies_def org_logger_def org_world_def sample_org_def org_connection_def
        LOG_OBJECT_def LOG_FIELDS_def)
  have first: "Logger_setup org_logger (org_world \<lparr> deployed = False, assignees = [], stored = [] \<rparr>)
     = (Inr (), (org_world \<lparr> deployed = True, assignees = [''005A''], stored = [] \<rparr>)
         \<lparr>calls := [Describe ''Log__c'', Deploy ''/app/force'', Identity,
            Query (''SELECT Id FROM PermissionSet WHERE Name = 'Log'' @ [CHR 0x27]),
            Query (''SELECT Id FROM PermissionSetAssignment WHERE PermissionSetId = '0PS1' AND AssigneeId = '005A'' @ [CHR 0x27]),
            Create ''PermissionSetAssignment''
              \<lparr> PermissionSetId = Some ''0PS1'', AssigneeId = ''005A'' \<rparr>,
            Describe ''Log__c'']\<rparr>)"
    by (simp add: Logger_setup_def setupLog_def verifyLog_run deployLog_def deployFolder_def
        call_deploy_def assignPermissionSetForLog_def assignPermissionSet_def call_identity_def
        call_query_def call_create_def Id_row_def Let_def
        org_logger_def org_world_def org_connection_def LOG_OBJECT_def LOG_FIELDS_def)
  from setup_verified_only_describes
      [where this = org_logger and w = "org_world sample_org"] v
  have a: "Logger_setup org_logger (org_world sample_org)
     = (Inr (), (org_world sample_org)\<lparr>calls := [Describe ''Log__c'']\<rparr>)"
    by (simp add: org_world_def LOG_OBJECT_def)
  from setup_verified_only_describes
      [where this = org_logger
         and w = "org_world \<lparr> deployed = False, assignees = [], stored = [] \<rparr>"] first
  have b: "calls (snd (Logger_setup org_logger
       (snd (Logger_setup org_logger
          (org_world \<lparr> deployed = False, assignees = [], stored = [] \<rparr>)))))
     = calls (snd (Logger_setup org_logger
          (org_world \<lparr> deployed = False, assignees = [], stored = [] \<rparr>)))
       @ [Describe ''Log__c'']"
    by (simp add: LOG_OBJECT_def)
  from v a first b show ?thesis
    by (intro conjI)
qed

section \<open>The logger: retrieval\<close>

lemma Integer_range: "- (2 ^ 53) \<le> sint (k :: 54 word) \<and> sint k < 2 ^ 53"
  using sint_ge [of k] sint_lt [of k] by simp

lemma getLogs_run:
  "getLogs this options w =
     (case call_query (conn this)
             (soql_shape (case options of None \<Rightarrow> None | Some opts \<Rightarrow> read (limit opts))) w of
        (Inl e, w1) \<Rightarrow> (Inl e, w1)
      | (Inr records, w1) \<Rightarrow> (Inr (map fromSfLog records), w1))"
proof -
  have "join '' ''
          (filter (\<lambda>s. s \<noteq> [])
            [''SELECT '' @ join '', '' LOG_FIELDS, ''FROM '' @ LOG_OBJECT,
             ''ORDER BY CreatedDate DESC'',
             (case lim of None \<Rightarrow> [] | Some n \<Rightarrow> if truthy n then ''LIMIT '' @ number_text n else [])])
        = soql_shape lim" for lim
    by (cases lim) (simp_all add: soql_shape_def)
  then show ?thesis
    by (simp add: getLogs_def Let_def)
qed

text \<open>
  C8, as the code has it. The query \<open>getLogs\<close> issues is
  \<open>SELECT <the canonical fields> FROM Log__c ORDER BY CreatedDate DESC\<close>, followed by
  \<open>LIMIT n\<close>, with \<open>n\<close> as the engine prints it, exactly when a limit \<open>n\<close> is given
  that is truthy: a limit of \<open>0\<close> or \<open>NaN\<close> adds nothing, every other number adds the
  clause. When the query answers, the result is the list of its rows, each through
  \<open>fromSfLog\<close>, in the order of the answer; when it fails, the failure is thrown on.
\<close>

theorem getLogs_query_and_result:
  "calls (snd (getLogs this options w)) =
     calls w @ [Query (soql_shape (case options of None \<Rightarrow> None
                                    | Some opts \<Rightarrow> read (limit opts)))] \<and>
   fst (getLogs this options w) =
     (case query (conn this) (backend w)
             (soql_shape (case options of None \<Rightarrow> None | Some opts \<Rightarrow> read (limit opts))) of
        Inl e \<Rightarrow> Inl e
      | Inr rows \<Rightarrow> Inr (map fromSfLog rows)) \<and>
   soql_shape None =
     ''SELECT Id, Level__c, Message__c, Stack__c, System__c, User__c, CreatedDate FROM Log__c ORDER BY CreatedDate DESC'' \<and>
   soql_shape (Some (Integer 0)) = soql_shape None \<and>
   soql_shape (Some NaN) = soql_shape None \<and>
   (soql_shape (Some n) = soql_shape None @ '' LIMIT '' @ number_text n)
     = (n \<noteq> Integer 0 \<and> n \<noteq> NaN) \<and>
   number_text (Integer k) =
     (if sint k < 0 then ''-'' @ digits (nat (- sint k)) else digits (nat (sint k))) \<and>
   number_text (OtherNumber t) = t"
proof -
  have issued: "calls (snd (getLogs this options w)) =
     calls w @ [Query (soql_shape (case options of None \<Rightarrow> None
                                    | Some opts \<Rightarrow> read (limit opts)))]"
    by (simp add: getLogs_run call_query_def split: sum.splits)
  have returned: "fst (getLogs this options w) =
     (case query (conn this) (backend w)
             (soql_shape (case options of None \<Rightarrow> None | Some opts \<Rightarrow> read (limit opts))) of
        Inl e \<Rightarrow> Inl e
      | Inr rows \<Rightarrow> Inr (map fromSfLog rows))"
    by (simp add: getLogs_run call_query_def split: sum.splits)
  have shape: "soql_shape None =
     ''SELECT Id, Level__c, Message__c, Stack__c, System__c, User__c, CreatedDate FROM Log__c ORDER BY CreatedDate DESC''"
    by (simp add: soql_shape_def LOG_FIELDS_def LOG_OBJECT_def)
  have zero: "soql_shape (Some (Integer 0)) = soql_shape None"
    by (simp add: soql_shape_def)
  have nan: "soql_shape (Some NaN) = soql_shape None"
    by (simp add: soql_shape_def)
  have falsy: "truthy n = (n \<noteq> Integer 0 \<and> n \<noteq> NaN)"
    by (cases n) simp_all
  have capped: "(soql_shape (Some n) = soql_shape None @ '' LIMIT '' @ number_text n)
     = (n \<noteq> Integer 0 \<and> n \<noteq> NaN)"
    by (simp add: soql_shape_def falsy)
  have printed: "number_text (Integer k) =
     (if sint k < 0 then ''-'' @ digits (nat (- sint k)) else digits (nat (sint k)))"
    "number_text (OtherNumber t) = t"
    by simp_all
  from issued returned shape zero nan capped printed show ?thesis
    by (intro conjI)
qed

theorem getLogs_query_and_result_witness:
  "calls (snd (getLogs org_logger (Some \<lparr> limit = Value (Integer 2) \<rparr>)
       (org_world (sample_org\<lparr>stored := two_rows\<rparr>)))) =
     [Query ''SELECT Id, Level__c, Message__c, Stack__c, System__c, User__c, CreatedDate FROM Log__c ORDER BY CreatedDate DESC LIMIT 2''] \<and>
   fst (getLogs org_logger (Some \<lparr> limit = Value (Integer 2) \<rparr>)
       (org_world (sample_org\<lparr>stored := two_rows\<rparr>))) =
     Inr [\<lparr> level = Value Warn, message = Value ''second'', stack = Undefined,
             system = Value ''S'', user = Value ''U'', id' = Value ''a02'',
             timestamp = Value ''2026-01-02T00:00:00Z'' \<rparr>,
          \<lparr> level = Value Info, message = Value ''first'', stack = Undefined,
             system = Value ''S'', user = Value ''U'', id' = Value ''a01'',
             timestamp = Value ''2026-01-01T00:00:00Z'' \<rparr>] \<and>
   calls (snd (getLogs org_logger (Some \<lparr> limit = Value (OtherNumber ''1e+21'') \<rparr>)
       (org_world sample_org))) =
     [Query ''SELECT Id, Level__c, Message__c, Stack__c, System__c, User__c, CreatedDate FROM Log__c ORDER BY CreatedDate DESC LIMIT 1e+21''] \<and>
   calls (snd (getLogs org_logger (Some \<lparr> limit = Value NaN \<rparr>) (org_world sample_org))) =
     [Query ''SELECT Id, Level__c, Message__c, Stack__c, System__c, User__c, CreatedDate FROM Log__c ORDER BY CreatedDate DESC''] \<and>
   calls (snd (getLogs org_logger (Some \<lparr> limit = Value (Integer (- 5)) \<rparr>)
       (org_world sample_org))) =
     [Query ''SELECT Id, Level__c, Message__c, Stack__c, System__c, User__c, CreatedDate FROM Log__c ORDER BY CreatedDate DESC LIMIT -5'']"
  using getLogs_query_and_result
    [where this = org_logger and options = "Some \<lparr> limit = Value (Integer 2) \<rparr>"
       and w = "org_world (sample_org\<lparr>stored := two_rows\<rparr>)"]
    getLogs_query_and_result
    [where this = org_logger and options = "Some \<lparr> limit = Value (OtherNumber ''1e+21'') \<rparr>"
       and w = "org_world sample_org"]
    getLogs_query_and_result
    [where this = org_logger and options = "Some \<lparr> limit = Value NaN \<rparr>"
       and w = "org_world sample_org"]
    getLogs_query_and_result
    [where this = org_logger and options = "Some \<lparr> limit = Value (Integer (- 5)) \<rparr>"
       and w = "org_world sample_org"]
  by (simp add: soql_shape_def digits.simps LOG_FIELDS_def LOG_OBJECT_def
      org_logger_def org_world_def org_connection_def sample_org_def two_rows_def
      fromSfLog_def)

text \<open>
  C8 as it is stated fails for a limit of \<open>0\<close>: it is given, and no \<open>LIMIT 0\<close> is
  appended.
\<close>

theorem getLogs_limit_zero_counterexample:
  "calls (snd (getLogs org_logger (Some \<lparr> limit = Value (Integer 0) \<rparr>)
       (org_world sample_org))) \<noteq>
     [Query ''SELECT Id, Level__c, Message__c, Stack__c, System__c, User__c, CreatedDate FROM Log__c ORDER BY CreatedDate DESC LIMIT 0'']"
  by (simp add: getLogs_def Let_def call_query_def LOG_FIELDS_def LOG_OBJECT_def
      org_logger_def org_world_def org_connection_def sample_org_def)

text \<open>
  C9. \<open>getLogs({limit: 0})\<close> does what \<open>getLogs()\<close> does: the query it issues is the
  one without a cap, in which the word \<open>LIMIT\<close> does not occur, so all rows are asked
  for and not none.
\<close>

theorem getLogs_limit_zero_is_unbounded:
  "getLogs this (Some \<lparr> limit = Value (Integer 0) \<rparr>) w = getLogs this None w \<and>
   calls (snd (getLogs this (Some \<lparr> limit = Value (Integer 0) \<rparr>) w)) =
     calls w @ [Query ''SELECT Id, Level__c, Message__c, Stack__c, System__c, User__c, CreatedDate FROM Log__c ORDER BY CreatedDate DESC''] \<and>
   occurrences ''LIMIT''
     ''SELECT Id, Level__c, Message__c, Stack__c, System__c, User__c, CreatedDate FROM Log__c ORDER BY CreatedDate DESC'' = 0"
proof -
  have same: "getLogs this (Some \<lparr> limit = Value (Integer 0) \<rparr>) w = getLogs this None w"
    by (simp add: getLogs_def)
  have issued: "calls (snd (getLogs this None w)) =
     calls w @ [Query ''SELECT Id, Level__c, Message__c, Stack__c, System__c, User__c, CreatedDate FROM Log__c ORDER BY CreatedDate DESC'']"
    by (simp add: getLogs_def Let_def call_query_def LOG_FIELDS_def LOG_OBJECT_def
        split: sum.splits)
  have none: "occurrences ''LIMIT''
     ''SELECT Id, Level__c, Message__c, Stack__c, System__c, User__c, CreatedDate FROM Log__c ORDER BY CreatedDate DESC'' = 0"
    by simp
  from same issued none show ?thesis
    by (simp only: simp_thms)
qed

end
